theory Spec2Isabelle
  imports Complex_Main "HOL-Library.Multiset"
begin

section \<open>Cinema seat grid: the model of Cinema2.py\<close>

text \<open>
  The theory embeds the non-drawing part of \<^verbatim>\<open>Cinema2.py\<close>: the classes \<^verbatim>\<open>Seat\<close> and
  \<^verbatim>\<open>CinemaHall\<close>, the grid layout, the hit test, toggle and reset, and the persistence of
  the booking state in \<^verbatim>\<open>seats.json\<close>.

  Conventions of the embedding.
  \<^item> Python's unbounded integers are \<open>int\<close>. Coordinates, the radius and the gaps are Python
    numbers computed with true division; they are modelled as \<open>real\<close>, so rounding of floating
    point arithmetic is not part of the model. No property below depends on a computed
    coordinate other than through the predicate \<open>contains\<close>.
  \<^item> An operation that mutates the hall returns the new hall. An operation that can raise
    returns an outcome \<open>pyerror + 'a\<close> (\<open>Inl\<close> is the exception) together with the hall
    and the disk as they are when the exception leaves the method: a mutation made before the
    raise stays.
  \<^item> The file \<^verbatim>\<open>seats.json\<close> is modelled by what \<^verbatim>\<open>json.load\<close> gives for it: the decoded
    document. \<^verbatim>\<open>json.dump\<close> followed by \<^verbatim>\<open>json.load\<close> is taken to be the identity on
    documents built from objects, arrays, integers and booleans, which is all that
    \<^verbatim>\<open>save_state\<close> writes.
  \<^item> The turtle drawing (\<^verbatim>\<open>draw_all\<close> and the pens) reads the seats and changes neither the
    seats nor the file; it is left out.
\<close>

subsection \<open>Configuration\<close>

definition WINDOW_W :: real where "WINDOW_W = 1000"
definition WINDOW_H :: real where "WINDOW_H = 700"
definition ROWS :: int where "ROWS = 8"
definition COLS :: int where "COLS = 12"
definition SEAT_RADIUS :: real where "SEAT_RADIUS = 16"
definition SEAT_GAP_X :: real where "SEAT_GAP_X = 18"
definition SEAT_GAP_Y :: real where "SEAT_GAP_Y = 24"
definition TOP_MARGIN :: real where "TOP_MARGIN = 150"
definition BOTTOM_MARGIN :: real where "BOTTOM_MARGIN = 80"

subsection \<open>Python values read from JSON\<close>

text \<open>
  The values \<^verbatim>\<open>json.load\<close> can return. A float is a finite number, an infinity or NaN (the
  decoder accepts \<^verbatim>\<open>NaN\<close>, \<^verbatim>\<open>Infinity\<close> and \<^verbatim>\<open>-Infinity\<close>). An object is kept as the list of
  its members in file order; Python's dict keeps the last value of a repeated name. A
  string is the list of its bytes; two strings are equal as keys exactly when their bytes
  are.
\<close>

datatype pyfloat = Finite real | PosInf | NegInf | NaN

datatype pyval =
    PNone
  | PBool bool
  | PInt int
  | PFloat pyfloat
  | PStr string
  | PList "pyval list"
  | PDict "(string \<times> pyval) list"

datatype pyerror = AttributeError | KeyError | TypeError | OSError

text \<open>Looking a name up in a decoded object: the last member with that name.\<close>

definition dict_lookup :: "(string \<times> pyval) list \<Rightarrow> string \<Rightarrow> pyval option" where
  "dict_lookup kvs k = map_of (rev kvs) k"

text \<open>\<^verbatim>\<open>bool(v)\<close>: Python's truth value.\<close>

fun truthy :: "pyval \<Rightarrow> bool" where
  "truthy PNone = False"
| "truthy (PBool b) = b"
| "truthy (PInt i) = (i \<noteq> 0)"
| "truthy (PFloat f) = (f \<noteq> Finite 0)"
| "truthy (PStr s) = (s \<noteq> [])"
| "truthy (PList vs) = (vs \<noteq> [])"
| "truthy (PDict kvs) = (kvs \<noteq> [])"

text \<open>\<^verbatim>\<open>v.get(k, dflt)\<close>: only a dict has the method.\<close>

fun py_get :: "pyval \<Rightarrow> string \<Rightarrow> pyval \<Rightarrow> pyerror + pyval" where
  "py_get (PDict kvs) k dflt =
     Inr (case dict_lookup kvs k of None \<Rightarrow> dflt | Some v \<Rightarrow> v)"
| "py_get _ k dflt = Inl AttributeError"

text \<open>\<^verbatim>\<open>v[k]\<close> with a string \<open>k\<close>: KeyError on a dict without the key, TypeError on
  every other JSON value (a list or a string wants an integer index, the rest is not
  subscriptable).\<close>

fun py_getitem :: "pyval \<Rightarrow> string \<Rightarrow> pyerror + pyval" where
  "py_getitem (PDict kvs) k =
     (case dict_lookup kvs k of None \<Rightarrow> Inl KeyError | Some v \<Rightarrow> Inr v)"
| "py_getitem _ k = Inl TypeError"

text \<open>\<^verbatim>\<open>for d in v\<close>: a list gives its elements, a dict its keys in insertion order, a
  string its characters; nothing else is iterable.\<close>

fun py_iter :: "pyval \<Rightarrow> pyerror + pyval list" where
  "py_iter (PList vs) = Inr vs"
| "py_iter (PDict kvs) = Inr (map PStr (rev (remdups (rev (map fst kvs)))))"
| "py_iter (PStr s) = Inr (map (\<lambda>c. PStr [c]) s)"
| "py_iter _ = Inl TypeError"

text \<open>
  Dictionary keys. Python compares the numbers \<open>1\<close>, \<open>1.0\<close> and \<open>True\<close> equal and hashes
  them alike, so every number is keyed by its value. A list or a dict is unhashable.
\<close>

datatype pykey = KNone | KNum real | KPosInf | KNegInf | KNaN | KStr string

fun py_hashable :: "pyval \<Rightarrow> pyerror + pykey" where
  "py_hashable PNone = Inr KNone"
| "py_hashable (PBool b) = Inr (KNum (if b then 1 else 0))"
| "py_hashable (PInt i) = Inr (KNum (of_int i))"
| "py_hashable (PFloat (Finite q)) = Inr (KNum q)"
| "py_hashable (PFloat PosInf) = Inr KPosInf"
| "py_hashable (PFloat NegInf) = Inr KNegInf"
| "py_hashable (PFloat NaN) = Inr KNaN"
| "py_hashable (PStr s) = Inr (KStr s)"
| "py_hashable (PList vs) = Inl TypeError"
| "py_hashable (PDict kvs) = Inl TypeError"

subsection \<open>Seat\<close>

record seat =
  row :: int
  col :: int
  seat_x :: real
  seat_y :: real
  seat_r :: real
  booked :: bool

definition Seat :: "int \<Rightarrow> int \<Rightarrow> real \<Rightarrow> real \<Rightarrow> real \<Rightarrow> seat" where
  "Seat rw cl px py rad =
     \<lparr>row = rw, col = cl, seat_x = px, seat_y = py, seat_r = rad, booked = False\<rparr>"

definition hypot :: "real \<Rightarrow> real \<Rightarrow> real" where
  "hypot a b = sqrt (a\<^sup>2 + b\<^sup>2)"

definition contains :: "seat \<Rightarrow> real \<Rightarrow> real \<Rightarrow> bool" where
  "contains s px py \<longleftrightarrow> hypot (px - seat_x s) (py - seat_y s) \<le> seat_r s"

definition to_dict :: "seat \<Rightarrow> pyval" where
  "to_dict s = PDict [(''row'', PInt (row s)), (''col'', PInt (col s)),
                      (''booked'', PBool (booked s))]"

definition from_dict :: "seat \<Rightarrow> pyval \<Rightarrow> pyerror + seat" where
  "from_dict s data =
     (case py_get data ''booked'' (PBool False) of
        Inl e \<Rightarrow> Inl e
      | Inr v \<Rightarrow> Inr (s\<lparr>booked := truthy v\<rparr>))"

subsection \<open>CinemaHall: layout\<close>

record hall =
  rows :: int
  cols :: int
  radius :: real
  gap_x :: real
  gap_y :: real
  seats :: "seat list"

text \<open>\<^verbatim>\<open>range(n)\<close> for an integer \<open>n\<close>: empty when \<open>n \<le> 0\<close>.\<close>

definition py_range :: "int \<Rightarrow> int list" where
  "py_range n = [0..n - 1]"

definition grid_origin :: "hall \<Rightarrow> real \<times> real" where
  "grid_origin h =
     (let grid_w = of_int (cols h) * (2 * radius h) + (of_int (cols h) - 1) * gap_x h;
          grid_h = of_int (rows h) * (2 * radius h) + (of_int (rows h) - 1) * gap_y h;
          x0 = - grid_w / 2;
          y0 = - WINDOW_H / 2 + BOTTOM_MARGIN + radius h;
          y0 = y0 + (WINDOW_H - TOP_MARGIN - BOTTOM_MARGIN - grid_h) / 2
      in (x0, y0))"

definition build_grid :: "hall \<Rightarrow> hall" where
  "build_grid h =
     (let (x0, y0) = grid_origin h
      in h\<lparr>seats :=
           concat (map (\<lambda>r. map (\<lambda>c.
             Seat r c (x0 + of_int c * (2 * radius h + gap_x h) + radius h)
                      (y0 + of_int r * (2 * radius h + gap_y h) + radius h)
                      (radius h))
             (py_range (cols h))) (py_range (rows h)))\<rparr>)"

subsection \<open>CinemaHall: persistence\<close>

text \<open>
  The disk. \<open>Missing\<close>: \<^verbatim>\<open>os.path.exists\<close> is false. \<open>Unreadable\<close>: the file exists and
  \<^verbatim>\<open>open\<close> or \<^verbatim>\<open>json.load\<close> raises (no permission, not JSON, bad encoding).
  \<open>Content v\<close>: \<^verbatim>\<open>json.load\<close> returns \<open>v\<close>. \<open>writable\<close> tells whether a save
  succeeds: the file opens for writing and the document is written.
\<close>

datatype file_state = Missing | Unreadable | Content pyval

record disk =
  data_file :: file_state
  writable :: bool

type_synonym state_dict = "pykey \<times> pykey \<Rightarrow> pyval option"

text \<open>The key \<^verbatim>\<open>(d["row"], d["col"])\<close> of one entry, hashed on insertion.\<close>

definition entry_key :: "pyval \<Rightarrow> pyerror + pykey \<times> pykey" where
  "entry_key d =
     (case py_getitem d ''row'' of
        Inl e \<Rightarrow> Inl e
      | Inr rv \<Rightarrow>
         (case py_getitem d ''col'' of
            Inl e \<Rightarrow> Inl e
          | Inr cv \<Rightarrow>
             (case py_hashable rv of
                Inl e \<Rightarrow> Inl e
              | Inr kr \<Rightarrow>
                 (case py_hashable cv of
                    Inl e \<Rightarrow> Inl e
                  | Inr kc \<Rightarrow> Inr (kr, kc)))))"

text \<open>The dict comprehension: entries in order, a later entry replaces an earlier one
  with an equal key, the first entry that raises ends it.\<close>

fun build_state :: "pyval list \<Rightarrow> state_dict \<Rightarrow> pyerror + state_dict" where
  "build_state [] m = Inr m"
| "build_state (d # ds) m =
     (case entry_key d of
        Inl e \<Rightarrow> Inl e
      | Inr k \<Rightarrow> build_state ds (m(k \<mapsto> d)))"

definition seat_key :: "seat \<Rightarrow> pykey \<times> pykey" where
  "seat_key s = (KNum (of_int (row s)), KNum (of_int (col s)))"

text \<open>The loop over the seats. A raise inside it leaves the seats visited so far
  updated.\<close>

fun apply_state :: "state_dict \<Rightarrow> seat list \<Rightarrow> pyerror option \<times> seat list" where
  "apply_state st [] = (None, [])"
| "apply_state st (s # ss) =
     (case st (seat_key s) of
        None \<Rightarrow> (let (e, ss') = apply_state st ss in (e, s # ss'))
      | Some d \<Rightarrow>
         (if truthy d then
            (case from_dict s d of
               Inl e \<Rightarrow> (Some e, s # ss)
             | Inr s' \<Rightarrow> (let (e, ss') = apply_state st ss in (e, s' # ss')))
          else (let (e, ss') = apply_state st ss in (e, s # ss'))))"

definition load_state :: "hall \<Rightarrow> disk \<Rightarrow> (pyerror + unit) \<times> hall" where
  "load_state h dk =
     (case data_file dk of
        Missing \<Rightarrow> (Inr (), h)
      | Unreadable \<Rightarrow> (Inr (), h)
      | Content data \<Rightarrow>
         (case py_get data ''seats'' (PList []) of
            Inl e \<Rightarrow> (Inl e, h)
          | Inr sv \<Rightarrow>
             (case py_iter sv of
                Inl e \<Rightarrow> (Inl e, h)
              | Inr ds \<Rightarrow>
                 (case build_state ds Map.empty of
                    Inl e \<Rightarrow> (Inl e, h)
                  | Inr st \<Rightarrow>
                     (case apply_state st (seats h) of
                        (None, ss) \<Rightarrow> (Inr (), h\<lparr>seats := ss\<rparr>)
                      | (Some e, ss) \<Rightarrow> (Inl e, h\<lparr>seats := ss\<rparr>))))))"

definition snapshot :: "seat list \<Rightarrow> pyval" where
  "snapshot ss = PDict [(''seats'', PList (map to_dict ss))]"

definition save_state :: "hall \<Rightarrow> disk \<Rightarrow> (pyerror + unit) \<times> disk" where
  "save_state h dk =
     (if writable dk then (Inr (), dk\<lparr>data_file := Content (snapshot (seats h))\<rparr>)
      else (Inl OSError, dk))"

text \<open>The constructor: store the configuration, build the grid, load the state.\<close>

definition CinemaHall :: "int \<Rightarrow> int \<Rightarrow> real \<Rightarrow> real \<Rightarrow> real \<Rightarrow> disk \<Rightarrow> (pyerror + unit) \<times> hall" where
  "CinemaHall rws cls rad gx gy dk =
     load_state (build_grid \<lparr>rows = rws, cols = cls, radius = rad, gap_x = gx, gap_y = gy,
                             seats = []\<rparr>) dk"

subsection \<open>CinemaHall: interactions\<close>

text \<open>The scan of \<^verbatim>\<open>toggle_at\<close> over a list in the order given: the first seat that
  contains the point is flipped and the scan stops.\<close>

fun toggle_scan :: "real \<Rightarrow> real \<Rightarrow> seat list \<Rightarrow> seat list \<times> bool" where
  "toggle_scan px py [] = ([], False)"
| "toggle_scan px py (s # ss) =
     (if contains s px py then (s\<lparr>booked := \<not> booked s\<rparr> # ss, True)
      else (let (ss', changed) = toggle_scan px py ss in (s # ss', changed)))"

definition toggle_at :: "hall \<Rightarrow> disk \<Rightarrow> real \<Rightarrow> real \<Rightarrow> (pyerror + bool) \<times> hall \<times> disk" where
  "toggle_at h dk px py =
     (let (rs, changed) = toggle_scan px py (rev (seats h));
          h' = h\<lparr>seats := rev rs\<rparr>
      in if changed then
           (case save_state h' dk of
              (Inl e, dk') \<Rightarrow> (Inl e, h', dk')
            | (Inr u, dk') \<Rightarrow> (Inr changed, h', dk'))
         else (Inr changed, h', dk))"

definition reset_all :: "hall \<Rightarrow> disk \<Rightarrow> (pyerror + unit) \<times> hall \<times> disk" where
  "reset_all h dk =
     (let h' = h\<lparr>seats := map (\<lambda>s. s\<lparr>booked := False\<rparr>) (seats h)\<rparr>
      in case save_state h' dk of (res, dk') \<Rightarrow> (res, h', dk'))"

subsection \<open>Sequences of operations\<close>

text \<open>
  The operations a hall receives after its construction. The event loop goes on after a
  handler raised, so a sequence is run from the hall and disk each operation leaves
  behind, whatever its outcome.
\<close>

datatype op = Load | Save | ToggleAt real real | ResetAll

fun step :: "op \<Rightarrow> hall \<times> disk \<Rightarrow> hall \<times> disk" where
  "step Load (h, dk) = (snd (load_state h dk), dk)"
| "step Save (h, dk) = (h, snd (save_state h dk))"
| "step (ToggleAt px py) (h, dk) = snd (toggle_at h dk px py)"
| "step ResetAll (h, dk) = snd (reset_all h dk)"

definition run :: "op list \<Rightarrow> hall \<times> disk \<Rightarrow> hall \<times> disk" where
  "run ops w = fold step ops w"

subsection \<open>Projections used to state the properties\<close>

text \<open>The identity of a seat, and everything of a seat but its \<open>booked\<close> flag.\<close>

definition seat_id :: "seat \<Rightarrow> int \<times> int" where
  "seat_id s = (row s, col s)"

definition geometry :: "seat \<Rightarrow> int \<times> int \<times> real \<times> real \<times> real" where
  "geometry s = (row s, col s, seat_x s, seat_y s, seat_r s)"

subsection \<open>Sample halls and disks\<close>

text \<open>A disk with no file yet, and a hall whose two seats overlap: both contain the
  point \<open>(2, 0)\<close>.\<close>

definition demo_disk :: disk where
  "demo_disk = \<lparr>data_file = Missing, writable = True\<rparr>"

definition overlap_hall :: hall where
  "overlap_hall = \<lparr>rows = 1, cols = 2, radius = 10, gap_x = -15, gap_y = 0,
     seats = [Seat 0 0 0 0 10, Seat 0 1 5 0 10]\<rparr>"

text \<open>A writable disk whose file decodes to the given document.\<close>

definition snapshot_disk :: "pyval \<Rightarrow> disk" where
  "snapshot_disk v = \<lparr>data_file = Content v, writable = True\<rparr>"

section \<open>Properties\<close>

subsection \<open>The hit test and the scan of \<^verbatim>\<open>toggle_at\<close>\<close>

lemma contains_booked_update: "contains (s\<lparr>booked := b\<rparr>) px py = contains s px py"
  by (simp add: contains_def)

lemma geometry_booked_update: "geometry (s\<lparr>booked := b\<rparr>) = geometry s"
  by (simp add: geometry_def)

lemma contains_code [code]:
  "contains s px py \<longleftrightarrow>
     0 \<le> seat_r s \<and> (px - seat_x s)\<^sup>2 + (py - seat_y s)\<^sup>2 \<le> (seat_r s)\<^sup>2"
proof -
  have nn: "0 \<le> (px - seat_x s)\<^sup>2 + (py - seat_y s)\<^sup>2" by simp
  show ?thesis
  proof (cases "0 \<le> seat_r s")
    case True
    then show ?thesis
      unfolding contains_def hypot_def
      using real_sqrt_le_iff [of "(px - seat_x s)\<^sup>2 + (py - seat_y s)\<^sup>2" "(seat_r s)\<^sup>2"]
      by simp
  next
    case False
    have "0 \<le> sqrt ((px - seat_x s)\<^sup>2 + (py - seat_y s)\<^sup>2)" using nn by simp
    with False show ?thesis unfolding contains_def hypot_def by linarith
  qed
qed

lemma toggle_scan_miss:
  "\<forall>s\<in>set ss. \<not> contains s px py \<Longrightarrow> toggle_scan px py ss = (ss, False)"
  by (induction ss) auto

lemma toggle_scan_hit:
  "\<forall>t\<in>set pre. \<not> contains t px py \<Longrightarrow> contains s px py \<Longrightarrow>
   toggle_scan px py (pre @ s # post) = (pre @ s\<lparr>booked := \<not> booked s\<rparr> # post, True)"
  by (induction pre) auto

lemma toggle_scan_twice:
  "fst (toggle_scan px py (fst (toggle_scan px py ss))) = ss"
  by (induction ss) (auto simp: contains_booked_update split: prod.splits)

lemma toggle_scan_geometry:
  "map geometry (fst (toggle_scan px py ss)) = map geometry ss"
  by (induction ss) (auto simp: geometry_booked_update split: prod.splits)

lemma toggle_scan_unchanged:
  "snd (toggle_scan px py ss) = False \<Longrightarrow> fst (toggle_scan px py ss) = ss"
  by (induction ss) (auto split: prod.splits if_splits)

lemma toggle_at_hall:
  "fst (snd (toggle_at h dk px py)) = h\<lparr>seats := rev (fst (toggle_scan px py (rev (seats h))))\<rparr>"
  by (simp add: toggle_at_def Let_def split: prod.splits sum.splits)

lemma toggle_at_twice:
  "fst (snd (toggle_at (fst (snd (toggle_at h dk px py))) dk' px py)) = h"
  by (simp add: toggle_at_hall toggle_scan_twice)

lemma toggle_at_miss:
  assumes "\<forall>s\<in>set (seats h). \<not> contains s px py"
  shows "toggle_at h dk px py = (Inr False, h, dk)"
proof -
  have "\<forall>s\<in>set (rev (seats h)). \<not> contains s px py" using assms by simp
  then have "toggle_scan px py (rev (seats h)) = (rev (seats h), False)"
    by (rule toggle_scan_miss)
  then show ?thesis by (simp add: toggle_at_def)
qed

lemma toggle_at_hit:
  assumes "seats h = pre @ s # post" and "contains s px py"
    and "\<forall>t\<in>set post. \<not> contains t px py"
  shows "toggle_at h dk px py =
           (if writable dk then
              (Inr True, h\<lparr>seats := pre @ s\<lparr>booked := \<not> booked s\<rparr> # post\<rparr>,
               dk\<lparr>data_file := Content (snapshot (pre @ s\<lparr>booked := \<not> booked s\<rparr> # post))\<rparr>)
            else (Inl OSError, h\<lparr>seats := pre @ s\<lparr>booked := \<not> booked s\<rparr> # post\<rparr>, dk))"
proof -
  have r: "rev (seats h) = rev post @ s # rev pre" using assms(1) by simp
  have "\<forall>t\<in>set (rev post). \<not> contains t px py" using assms(3) by simp
  then have "toggle_scan px py (rev post @ s # rev pre)
               = (rev post @ s\<lparr>booked := \<not> booked s\<rparr> # rev pre, True)"
    using assms(2) by (rule toggle_scan_hit)
  then show ?thesis by (simp add: toggle_at_def r save_state_def)
qed

lemma last_hit_split:
  assumes "\<exists>s\<in>set ss. P s"
  shows "\<exists>pre s post. ss = pre @ s # post \<and> P s \<and> (\<forall>t\<in>set post. \<not> P t)"
  using assms split_list_last_prop [of ss P] by blast

text \<open>
  Claim C3. Whenever the seats split as \<open>pre @ s # post\<close> where \<open>s\<close> contains the point and
  no seat of \<open>post\<close> does (so \<open>s\<close> is the first hit of the scan in reverse construction
  order), \<^verbatim>\<open>toggle_at\<close> flips the \<open>booked\<close> flag of \<open>s\<close>, leaves every other seat and the
  configuration as they were, and, when the snapshot can be written, returns \<open>True\<close>. Such a
  split exists as soon as one seat contains the point. If no seat contains the point, the
  call returns \<open>False\<close> and changes neither the hall nor the disk. The seats may overlap.
\<close>
theorem toggle_at_first_hit_in_reverse_order:
  "(\<forall>pre s post.
      seats h = pre @ s # post \<and> contains s px py \<and> (\<forall>t\<in>set post. \<not> contains t px py)
      \<longrightarrow> fst (snd (toggle_at h dk px py))
            = h\<lparr>seats := pre @ s\<lparr>booked := \<not> booked s\<rparr> # post\<rparr>
        \<and> (writable dk \<longrightarrow> fst (toggle_at h dk px py) = Inr True))
   \<and> ((\<exists>s\<in>set (seats h). contains s px py)
      \<longrightarrow> (\<exists>pre s post. seats h = pre @ s # post \<and> contains s px py
                         \<and> (\<forall>t\<in>set post. \<not> contains t px py)))
   \<and> ((\<forall>s\<in>set (seats h). \<not> contains s px py)
      \<longrightarrow> toggle_at h dk px py = (Inr False, h, dk))"
proof (intro conjI allI impI)
  fix pre s post
  assume a: "seats h = pre @ s # post \<and> contains s px py \<and> (\<forall>t\<in>set post. \<not> contains t px py)"
  then have e: "toggle_at h dk px py =
           (if writable dk then
              (Inr True, h\<lparr>seats := pre @ s\<lparr>booked := \<not> booked s\<rparr> # post\<rparr>,
               dk\<lparr>data_file := Content (snapshot (pre @ s\<lparr>booked := \<not> booked s\<rparr> # post))\<rparr>)
            else (Inl OSError, h\<lparr>seats := pre @ s\<lparr>booked := \<not> booked s\<rparr> # post\<rparr>, dk))"
    using toggle_at_hit by blast
  show "fst (snd (toggle_at h dk px py)) = h\<lparr>seats := pre @ s\<lparr>booked := \<not> booked s\<rparr> # post\<rparr>"
    by (simp add: e)
  show "fst (toggle_at h dk px py) = Inr True" if "writable dk"
    using that by (simp add: e)
next
  assume "\<exists>s\<in>set (seats h). contains s px py"
  then show "\<exists>pre s post. seats h = pre @ s # post \<and> contains s px py
                         \<and> (\<forall>t\<in>set post. \<not> contains t px py)"
    by (rule last_hit_split)
next
  assume "\<forall>s\<in>set (seats h). \<not> contains s px py"
  then show "toggle_at h dk px py = (Inr False, h, dk)" by (rule toggle_at_miss)
qed

subsection \<open>Reset and persistence after a mutation\<close>

lemma reset_all_hall:
  "fst (snd (reset_all h dk)) = h\<lparr>seats := map (\<lambda>s. s\<lparr>booked := False\<rparr>) (seats h)\<rparr>"
  by (simp add: reset_all_def Let_def split: prod.splits)

lemma map_booked_False_id:
  "\<forall>s\<in>set ss. \<not> booked s \<Longrightarrow> map (\<lambda>s. s\<lparr>booked := False\<rparr>) ss = (ss :: seat list)"
  by (induction ss) auto

text \<open>
  Claim C5. After \<^verbatim>\<open>reset_all\<close> every seat has \<open>booked = False\<close>, whatever the seats were
  before and whether or not the save that follows succeeds; the number of seats is kept.
  On a hall with no booked seat the hall is returned as it was.
\<close>
theorem reset_all_clears_every_seat:
  "(\<forall>s\<in>set (seats (fst (snd (reset_all h dk)))). \<not> booked s)
   \<and> map booked (seats (fst (snd (reset_all h dk)))) = replicate (length (seats h)) False
   \<and> ((\<forall>s\<in>set (seats h). \<not> booked s) \<longrightarrow> fst (snd (reset_all h dk)) = h)"
  by (simp add: reset_all_hall map_booked_False_id comp_def map_replicate_const)

text \<open>
  Claim C4. When \<^verbatim>\<open>toggle_at\<close> returns \<open>True\<close>, and when \<^verbatim>\<open>reset_all\<close> returns, the file
  holds exactly \<^verbatim>\<open>{"seats": [s.to_dict() for s in seats]}\<close> for the seats of the hall as the
  call leaves them. When \<^verbatim>\<open>toggle_at\<close> returns \<open>False\<close> the disk and the hall are
  untouched. On a writable disk both calls return.
\<close>
theorem mutations_persist_before_returning:
  "(fst (toggle_at h dk px py) = Inr True \<longrightarrow>
      data_file (snd (snd (toggle_at h dk px py)))
        = Content (snapshot (seats (fst (snd (toggle_at h dk px py))))))
   \<and> (fst (toggle_at h dk px py) = Inr False \<longrightarrow>
        snd (toggle_at h dk px py) = (h, dk))
   \<and> (fst (reset_all h dk) = Inr () \<longrightarrow>
        data_file (snd (snd (reset_all h dk)))
          = Content (snapshot (seats (fst (snd (reset_all h dk))))))
   \<and> (writable dk \<longrightarrow>
        fst (reset_all h dk) = Inr () \<and> (\<exists>b. fst (toggle_at h dk px py) = Inr b))"
  apply (intro conjI impI)
  subgoal by (auto simp: toggle_at_def save_state_def Let_def split: prod.splits if_splits sum.splits)
  subgoal using toggle_scan_unchanged[of px py "rev (seats h)"] by (auto simp: toggle_at_def save_state_def Let_def split: prod.splits if_splits sum.splits)
  subgoal by (auto simp: reset_all_def save_state_def Let_def split: prod.splits if_splits)
  subgoal by (auto simp: reset_all_def save_state_def Let_def split: prod.splits if_splits)
  subgoal by (auto simp: toggle_at_def save_state_def Let_def split: prod.splits if_splits sum.splits)
  done

subsection \<open>What the operations leave unchanged\<close>

lemma from_dict_geometry: "from_dict s d = Inr s' \<Longrightarrow> geometry s' = geometry s"
  by (auto simp: from_dict_def geometry_def split: sum.splits)

lemma apply_state_geometry:
  "map geometry (snd (apply_state st ss)) = map geometry ss"
  by (induction ss) (auto simp: from_dict_geometry split: option.splits prod.splits sum.splits)

lemma load_state_geometry:
  "map geometry (seats (snd (load_state h dk))) = map geometry (seats h)"
proof -
  have "\<And>st e ss. apply_state st (seats h) = (e, ss) \<Longrightarrow> map geometry ss = map geometry (seats h)"
    using apply_state_geometry by (metis snd_conv)
  then show ?thesis
    by (auto simp: load_state_def split: file_state.splits sum.splits prod.splits option.splits)
qed

lemma load_state_config:
  "seats_update (\<lambda>_. []) (snd (load_state h dk)) = seats_update (\<lambda>_. []) h"
  by (auto simp: load_state_def split: file_state.splits sum.splits prod.splits option.splits)

lemma toggle_at_geometry:
  "map geometry (seats (fst (snd (toggle_at h dk px py)))) = map geometry (seats h)"
  using toggle_scan_geometry [of px py "rev (seats h)"]
  by (simp add: toggle_at_hall rev_map [symmetric])

lemma reset_all_geometry:
  "map geometry (seats (fst (snd (reset_all h dk)))) = map geometry (seats h)"
  by (simp add: reset_all_hall geometry_def)

lemma step_geometry:
  "map geometry (seats (fst (step ev w))) = map geometry (seats (fst w))"
  by (cases ev; cases w) (simp_all add: load_state_geometry toggle_at_geometry reset_all_geometry)

lemma run_geometry:
  "map geometry (seats (fst (run evs w))) = map geometry (seats (fst w))"
  unfolding run_def by (induction evs arbitrary: w) (simp_all add: step_geometry)

lemma step_config:
  "seats_update (\<lambda>_. []) (fst (step ev w)) = seats_update (\<lambda>_. []) (fst w)"
  by (cases ev; cases w) (simp_all add: load_state_config toggle_at_hall reset_all_hall)

lemma run_config:
  "seats_update (\<lambda>_. []) (fst (run evs w)) = seats_update (\<lambda>_. []) (fst w)"
  unfolding run_def by (induction evs arbitrary: w) (simp_all add: step_config)

lemma seat_id_geometry: "seat_id s = (fst (geometry s), fst (snd (geometry s)))"
  by (simp add: seat_id_def geometry_def)

lemma map_seat_id_geometry:
  "map geometry ss = map geometry ts \<Longrightarrow> map seat_id ss = map seat_id ts"
proof -
  assume a: "map geometry ss = map geometry ts"
  have "map seat_id ss = map (\<lambda>g. (fst g, fst (snd g))) (map geometry ss)"
    by (simp add: seat_id_geometry)
  also have "\<dots> = map (\<lambda>g. (fst g, fst (snd g))) (map geometry ts)" using a by simp
  also have "\<dots> = map seat_id ts" by (simp add: seat_id_geometry)
  finally show ?thesis .
qed

lemma build_grid_ids:
  "map seat_id (seats (build_grid h)) = List.product (py_range (rows h)) (py_range (cols h))"
  by (simp add: build_grid_def product_concat_map seat_id_def Seat_def map_concat comp_def
      split: prod.splits)

lemma py_range_props:
  "distinct (py_range n)" "set (py_range n) = {0..<n}" "length (py_range n) = nat n"
  by (auto simp: py_range_def)

lemma build_grid_config:
  "seats_update (\<lambda>_. []) (build_grid h) = seats_update (\<lambda>_. []) h"
  by (simp add: build_grid_def split: prod.splits)

lemma CinemaHall_geometry:
  "map geometry (seats (snd (CinemaHall rws cls rad gx gy dk)))
     = map geometry (seats (build_grid \<lparr>rows = rws, cols = cls, radius = rad, gap_x = gx,
                                         gap_y = gy, seats = []\<rparr>))"
  by (simp add: CinemaHall_def load_state_geometry)

lemma CinemaHall_config:
  "seats_update (\<lambda>_. []) (snd (CinemaHall rws cls rad gx gy dk))
     = \<lparr>rows = rws, cols = cls, radius = rad, gap_x = gx, gap_y = gy, seats = []\<rparr>"
  by (simp add: CinemaHall_def load_state_config build_grid_config)

lemma product_range_props:
  assumes "1 \<le> rws" "1 \<le> cls"
  shows "length (List.product (py_range rws) (py_range cls)) = nat (rws * cls)"
    and "distinct (List.product (py_range rws) (py_range cls))"
    and "set (List.product (py_range rws) (py_range cls)) = {0..<rws} \<times> {0..<cls}"
  using assms by (simp_all add: py_range_props distinct_product nat_mult_distrib)

text \<open>
  Claim C6. For \<open>rows \<ge> 1\<close> and \<open>cols \<ge> 1\<close>, the hall made by the constructor and then
  driven through any sequence of load, save, toggle and reset has exactly \<open>rows * cols\<close>
  seats, their \<open>(row, col)\<close> are pairwise distinct, and they are exactly the pairs of
  \<open>[0, rows) \<times> [0, cols)\<close>. The empty sequence is the hall right after construction.
\<close>
theorem grid_holds_each_cell_once:
  assumes "1 \<le> rws" and "1 \<le> cls"
  shows "length (seats (fst (run evs (snd (CinemaHall rws cls rad gx gy dk0), dk)))) = nat (rws * cls)
       \<and> distinct (map seat_id (seats (fst (run evs (snd (CinemaHall rws cls rad gx gy dk0), dk)))))
       \<and> set (map seat_id (seats (fst (run evs (snd (CinemaHall rws cls rad gx gy dk0), dk)))))
           = {0..<rws} \<times> {0..<cls}"
proof -
  let ?h = "fst (run evs (snd (CinemaHall rws cls rad gx gy dk0), dk))"
  let ?cfg = "\<lparr>rows = rws, cols = cls, radius = rad, gap_x = gx, gap_y = gy, seats = []\<rparr>"
  have "map geometry (seats ?h) = map geometry (seats (build_grid ?cfg))"
    by (simp add: run_geometry CinemaHall_geometry)
  then have "map seat_id (seats ?h) = map seat_id (seats (build_grid ?cfg))"
    by (rule map_seat_id_geometry)
  then have ids: "map seat_id (seats ?h) = List.product (py_range rws) (py_range cls)"
    by (simp add: build_grid_ids)
  have "length (seats ?h) = length (map seat_id (seats ?h))" by simp
  also have "\<dots> = nat (rws * cls)"
    unfolding ids using assms by (rule product_range_props)
  finally have len: "length (seats ?h) = nat (rws * cls)" .
  have dis: "distinct (map seat_id (seats ?h))"
    unfolding ids using assms by (rule product_range_props)
  have st: "set (map seat_id (seats ?h)) = {0..<rws} \<times> {0..<cls}"
    unfolding ids using assms by (rule product_range_props)
  from len dis st show ?thesis by blast
qed

text \<open>
  Claim C10. Any sequence of load, save, toggle and reset leaves the row, column, centre
  and radius of every seat, the number of seats and the configuration of the hall as they
  were; for a constructed hall they are the ones \<^verbatim>\<open>_build_grid\<close> computed.
\<close>
theorem operations_change_only_booked:
  "map geometry (seats (fst (run evs (h, dk)))) = map geometry (seats h)
   \<and> rows (fst (run evs (h, dk))) = rows h \<and> cols (fst (run evs (h, dk))) = cols h
   \<and> radius (fst (run evs (h, dk))) = radius h
   \<and> gap_x (fst (run evs (h, dk))) = gap_x h \<and> gap_y (fst (run evs (h, dk))) = gap_y h
   \<and> map geometry (seats (fst (run evs (snd (CinemaHall rws cls rad gx gy dk0), dk))))
       = map geometry (seats (build_grid \<lparr>rows = rws, cols = cls, radius = rad, gap_x = gx,
                                           gap_y = gy, seats = []\<rparr>))"
proof -
  have c: "seats_update (\<lambda>_. []) (fst (run evs (h, dk))) = seats_update (\<lambda>_. []) h"
    by (simp add: run_config)
  have "rows (fst (run evs (h, dk))) = rows h" "cols (fst (run evs (h, dk))) = cols h"
    "radius (fst (run evs (h, dk))) = radius h"
    "gap_x (fst (run evs (h, dk))) = gap_x h" "gap_y (fst (run evs (h, dk))) = gap_y h"
    using arg_cong [OF c, of rows] arg_cong [OF c, of cols] arg_cong [OF c, of radius]
      arg_cong [OF c, of gap_x] arg_cong [OF c, of gap_y]
    by simp_all
  then show ?thesis by (simp add: run_geometry CinemaHall_geometry)
qed

text \<open>
  Claim C7. Two calls of \<^verbatim>\<open>toggle_at\<close> with the same point give back the hall the first
  call started from, seat by seat, whatever the disk does in between; and when some seat
  contains the point, the hall after the first call differs from it.
\<close>
theorem toggle_at_twice_restores:
  "fst (snd (toggle_at (fst (snd (toggle_at h dk px py))) dk' px py)) = h
   \<and> ((\<exists>s\<in>set (seats h). contains s px py) \<longrightarrow> fst (snd (toggle_at h dk px py)) \<noteq> h)"
proof (intro conjI impI)
  show "fst (snd (toggle_at (fst (snd (toggle_at h dk px py))) dk' px py)) = h"
    by (rule toggle_at_twice)
next
  assume "\<exists>s\<in>set (seats h). contains s px py"
  then obtain pre s post where sp: "seats h = pre @ s # post" "contains s px py"
    "\<forall>t\<in>set post. \<not> contains t px py"
    using last_hit_split [of "seats h" "\<lambda>s. contains s px py"] by blast
  have "seats (fst (snd (toggle_at h dk px py))) = pre @ s\<lparr>booked := \<not> booked s\<rparr> # post"
    using toggle_at_hit [OF sp, of dk] by simp
  moreover have "s\<lparr>booked := \<not> booked s\<rparr> \<noteq> s"
    by (metis seat.select_convs(6) seat.surjective seat.update_convs(6))
  ultimately show "fst (snd (toggle_at h dk px py)) \<noteq> h" using sp(1) by auto
qed

subsection \<open>Instances on sample halls\<close>

theorem toggle_at_twice_restores_witness:
  "fst (snd (toggle_at (fst (snd (toggle_at overlap_hall demo_disk 2 0))) demo_disk 2 0)) = overlap_hall
   \<and> contains (Seat 0 1 5 0 10) 2 0
   \<and> fst (snd (toggle_at overlap_hall demo_disk 2 0)) \<noteq> overlap_hall"
proof -
  have c: "contains (Seat 0 1 5 0 10) 2 0" by (simp add: contains_code Seat_def)
  then have "\<exists>s\<in>set (seats overlap_hall). contains s 2 0" by (simp add: overlap_hall_def)
  with c toggle_at_twice_restores [of overlap_hall demo_disk 2 0 demo_disk] show ?thesis by blast
qed

theorem toggle_at_first_hit_in_reverse_order_witness:
  "contains (Seat 0 0 0 0 10) 2 0 \<and> contains (Seat 0 1 5 0 10) 2 0
   \<and> fst (toggle_at overlap_hall demo_disk 2 0) = Inr True
   \<and> seats (fst (snd (toggle_at overlap_hall demo_disk 2 0)))
       = [Seat 0 0 0 0 10, (Seat 0 1 5 0 10)\<lparr>booked := True\<rparr>]
   \<and> toggle_at overlap_hall demo_disk 40 0 = (Inr False, overlap_hall, demo_disk)"
proof -
  have c0: "contains (Seat 0 0 0 0 10) 2 0" by (simp add: contains_code Seat_def)
  have c1: "contains (Seat 0 1 5 0 10) 2 0" by (simp add: contains_code Seat_def)
  have n: "\<forall>s\<in>set (seats overlap_hall). \<not> contains s 40 0"
    by (simp add: overlap_hall_def contains_code Seat_def)
  have sp: "seats overlap_hall = [Seat 0 0 0 0 10] @ Seat 0 1 5 0 10 # []
      \<and> contains (Seat 0 1 5 0 10) 2 0 \<and> (\<forall>t\<in>set []. \<not> contains t 2 0)"
    using c1 by (simp add: overlap_hall_def)
  have w: "writable demo_disk" by (simp add: demo_disk_def)
  note t = toggle_at_first_hit_in_reverse_order [of overlap_hall 2 0 demo_disk]
  have h1: "fst (snd (toggle_at overlap_hall demo_disk 2 0))
      = overlap_hall\<lparr>seats := [Seat 0 0 0 0 10] @ (Seat 0 1 5 0 10)\<lparr>booked := \<not> booked (Seat 0 1 5 0 10)\<rparr> # []\<rparr>"
    and r1: "fst (toggle_at overlap_hall demo_disk 2 0) = Inr True"
    using t sp w by blast+
  have s1: "seats (fst (snd (toggle_at overlap_hall demo_disk 2 0)))
       = [Seat 0 0 0 0 10, (Seat 0 1 5 0 10)\<lparr>booked := True\<rparr>]"
    unfolding h1 by (simp add: Seat_def)
  have e2: "toggle_at overlap_hall demo_disk 40 0 = (Inr False, overlap_hall, demo_disk)"
    using toggle_at_first_hit_in_reverse_order [of overlap_hall 40 0 demo_disk] n by blast
  from c0 c1 r1 s1 e2 show ?thesis by blast
qed

theorem reset_all_clears_every_seat_witness:
  "map booked (seats (fst (snd (reset_all
      (overlap_hall\<lparr>seats := [(Seat 0 0 0 0 10)\<lparr>booked := True\<rparr>, Seat 0 1 5 0 10]\<rparr>) demo_disk))))
     = [False, False]
   \<and> fst (snd (reset_all overlap_hall demo_disk)) = overlap_hall"
proof -
  let ?h = "overlap_hall\<lparr>seats := [(Seat 0 0 0 0 10)\<lparr>booked := True\<rparr>, Seat 0 1 5 0 10]\<rparr>"
  have free: "\<forall>s\<in>set (seats overlap_hall). \<not> booked s"
    by (simp add: overlap_hall_def Seat_def)
  have "map booked (seats (fst (snd (reset_all ?h demo_disk)))) = replicate (length (seats ?h)) False"
    using reset_all_clears_every_seat [of ?h demo_disk] by blast
  then have a: "map booked (seats (fst (snd (reset_all ?h demo_disk)))) = [False, False]"
    by (simp add: numeral_2_eq_2)
  have b: "fst (snd (reset_all overlap_hall demo_disk)) = overlap_hall"
    using reset_all_clears_every_seat [of overlap_hall demo_disk] free by blast
  from a b show ?thesis by blast
qed

theorem mutations_persist_before_returning_witness:
  "writable demo_disk
   \<and> fst (toggle_at overlap_hall demo_disk 2 0) = Inr True
   \<and> data_file (snd (snd (toggle_at overlap_hall demo_disk 2 0)))
       = Content (PDict [(''seats'', PList
           [PDict [(''row'', PInt 0), (''col'', PInt 0), (''booked'', PBool False)],
            PDict [(''row'', PInt 0), (''col'', PInt 1), (''booked'', PBool True)]])])
   \<and> fst (toggle_at overlap_hall demo_disk 40 0) = Inr False
   \<and> snd (toggle_at overlap_hall demo_disk 40 0) = (overlap_hall, demo_disk)
   \<and> fst (reset_all overlap_hall demo_disk) = Inr ()
   \<and> data_file (snd (snd (reset_all overlap_hall demo_disk)))
       = Content (PDict [(''seats'', PList
           [PDict [(''row'', PInt 0), (''col'', PInt 0), (''booked'', PBool False)],
            PDict [(''row'', PInt 0), (''col'', PInt 1), (''booked'', PBool False)]])])"
proof -
  have w: "writable demo_disk" by (simp add: demo_disk_def)
  have c0: "contains (Seat 0 0 0 0 10) 2 0" by (simp add: contains_code Seat_def)
  have c1: "contains (Seat 0 1 5 0 10) 2 0" by (simp add: contains_code Seat_def)
  have n0: "\<not> contains (Seat 0 0 0 0 10) 40 0" by (simp add: contains_code Seat_def)
  have n1: "\<not> contains (Seat 0 1 5 0 10) 40 0" by (simp add: contains_code Seat_def)
  have r1: "fst (toggle_at overlap_hall demo_disk 2 0) = Inr True"
    using c1 w by (simp add: toggle_at_def overlap_hall_def save_state_def)
  have s1: "seats (fst (snd (toggle_at overlap_hall demo_disk 2 0)))
       = [Seat 0 0 0 0 10, (Seat 0 1 5 0 10)\<lparr>booked := True\<rparr>]"
    using c1 by (simp add: toggle_at_hall overlap_hall_def Seat_def)
  have r2: "fst (toggle_at overlap_hall demo_disk 40 0) = Inr False"
    using n0 n1 by (simp add: toggle_at_def overlap_hall_def)
  have s3: "seats (fst (snd (reset_all overlap_hall demo_disk))) = [Seat 0 0 0 0 10, Seat 0 1 5 0 10]"
    by (simp add: reset_all_hall overlap_hall_def Seat_def)
  note m1 = mutations_persist_before_returning [of overlap_hall demo_disk 2 0]
  note m2 = mutations_persist_before_returning [of overlap_hall demo_disk 40 0]
  have f1: "data_file (snd (snd (toggle_at overlap_hall demo_disk 2 0)))
        = Content (snapshot (seats (fst (snd (toggle_at overlap_hall demo_disk 2 0)))))"
    using m1 r1 by blast
  have f2: "snd (toggle_at overlap_hall demo_disk 40 0) = (overlap_hall, demo_disk)"
    using m2 r2 by blast
  have r3: "fst (reset_all overlap_hall demo_disk) = Inr ()" using m1 w by blast
  have f3: "data_file (snd (snd (reset_all overlap_hall demo_disk)))
          = Content (snapshot (seats (fst (snd (reset_all overlap_hall demo_disk)))))"
    using m1 r3 by blast
  show ?thesis
    using w r1 r2 f2 r3 f1 [unfolded s1] f3 [unfolded s3]
    by (simp add: snapshot_def to_dict_def Seat_def)
qed

lemma build_grid_2x2:
  "seats (build_grid \<lparr>rows = 2, cols = 2, radius = 10, gap_x = 4, gap_y = 6, seats = []\<rparr>)
     = [Seat 0 0 (-12) (-38) 10, Seat 0 1 12 (-38) 10, Seat 1 0 (-12) (-12) 10, Seat 1 1 12 (-12) 10]"
proof -
  have u: "[0..1] = [0, 1::int]" by (simp add: upto.simps)
  show ?thesis
    by (simp add: build_grid_def grid_origin_def py_range_def WINDOW_H_def BOTTOM_MARGIN_def
      TOP_MARGIN_def Let_def u)
qed

theorem grid_holds_each_cell_once_witness:
  "(1::int) \<le> 2
   \<and> length (seats (fst (run [ToggleAt 12 (-38), Save, ResetAll, Load]
                (snd (CinemaHall 2 2 10 4 6 demo_disk), demo_disk)))) = 4
   \<and> distinct (map seat_id (seats (fst (run [ToggleAt 12 (-38), Save, ResetAll, Load]
                (snd (CinemaHall 2 2 10 4 6 demo_disk), demo_disk)))))
   \<and> set (map seat_id (seats (fst (run [ToggleAt 12 (-38), Save, ResetAll, Load]
                (snd (CinemaHall 2 2 10 4 6 demo_disk), demo_disk)))))
       = {0..<2} \<times> {0..<2}"
  using grid_holds_each_cell_once [of 2 2 "[ToggleAt 12 (-38), Save, ResetAll, Load]" 10 4 6
      demo_disk demo_disk]
  by simp

theorem operations_change_only_booked_witness:
  "map geometry (seats (fst (run [ToggleAt 12 (-38), Save, ResetAll, Load]
                (snd (CinemaHall 2 2 10 4 6 demo_disk), demo_disk))))
     = [(0, 0, -12, -38, 10), (0, 1, 12, -38, 10), (1, 0, -12, -12, 10), (1, 1, 12, -12, 10)]"
proof -
  have "map geometry (seats (fst (run [ToggleAt 12 (-38), Save, ResetAll, Load]
                (snd (CinemaHall 2 2 10 4 6 demo_disk), demo_disk))))
     = map geometry (seats (build_grid \<lparr>rows = 2, cols = 2, radius = 10, gap_x = 4,
                                         gap_y = 6, seats = []\<rparr>))"
    using operations_change_only_booked [of "[ToggleAt 12 (-38), Save, ResetAll, Load]"
        overlap_hall demo_disk 2 2 10 4 6 demo_disk]
    by blast
  then show ?thesis by (simp add: build_grid_2x2 geometry_def Seat_def)
qed

subsection \<open>Loading: the order of the entries\<close>

lemma build_state_other:
  "build_state ds m = Inr st \<Longrightarrow> \<forall>d\<in>set ds. entry_key d \<noteq> Inr k \<Longrightarrow> st k = m k"
proof (induction ds arbitrary: m)
  case Nil
  then show ?case by simp
next
  case (Cons d ds)
  then obtain k' where k': "entry_key d = Inr k'"
    by (cases "entry_key d") auto
  with Cons.prems have b: "build_state ds (m(k' \<mapsto> d)) = Inr st" by simp
  have "\<forall>d\<in>set ds. entry_key d \<noteq> Inr k" using Cons.prems(2) by simp
  with b have "st k = (m(k' \<mapsto> d)) k" by (rule Cons.IH)
  moreover have "k' \<noteq> k" using Cons.prems(2) k' by auto
  ultimately show ?case by simp
qed

lemma build_state_entry:
  "build_state ds m = Inr st \<Longrightarrow> distinct (map entry_key ds) \<Longrightarrow> d \<in> set ds \<Longrightarrow>
   entry_key d = Inr k \<Longrightarrow> st k = Some d"
proof (induction ds arbitrary: m)
  case Nil
  then show ?case by simp
next
  case (Cons e ds)
  then obtain k' where k': "entry_key e = Inr k'"
    by (cases "entry_key e") auto
  with Cons.prems have b: "build_state ds (m(k' \<mapsto> e)) = Inr st" by simp
  have dis: "distinct (map entry_key ds)" and notin: "entry_key e \<notin> entry_key ` set ds"
    using Cons.prems(2) by simp_all
  show ?case
  proof (cases "d \<in> set ds")
    case True
    from b dis True Cons.prems(4) show ?thesis by (rule Cons.IH)
  next
    case False
    with Cons.prems(3) have de: "d = e" by simp
    then have kk: "k' = k" using k' Cons.prems(4) by simp
    have "\<forall>x\<in>set ds. entry_key x \<noteq> Inr k" using notin k' kk by force
    with b have "st k = (m(k' \<mapsto> e)) k" by (rule build_state_other)
    then show ?thesis using kk de by simp
  qed
qed

lemma build_state_total:
  "\<forall>d\<in>set ds. \<exists>k. entry_key d = Inr k \<Longrightarrow> \<exists>st. build_state ds m = Inr st"
  by (induction ds arbitrary: m) auto

lemma build_state_perm:
  assumes "mset ds' = mset ds"
    and "\<forall>d\<in>set ds. \<exists>k. entry_key d = Inr k"
    and "distinct (map entry_key ds)"
  shows "build_state ds' m = build_state ds m"
proof -
  have s: "set ds' = set ds" using assms(1) by (rule mset_eq_setD)
  have "mset (map entry_key ds') = mset (map entry_key ds)" using assms(1) by simp
  then have dis': "distinct (map entry_key ds')"
    using assms(3) by (metis mset_eq_imp_distinct_iff)
  obtain st where st: "build_state ds m = Inr st"
    using build_state_total [OF assms(2)] by blast
  have "\<forall>d\<in>set ds'. \<exists>k. entry_key d = Inr k" using assms(2) s by simp
  then obtain st' where st': "build_state ds' m = Inr st'"
    using build_state_total by blast
  have "st' k = st k" for k
  proof (cases "\<exists>d\<in>set ds. entry_key d = Inr k")
    case True
    then obtain d where d: "d \<in> set ds" "entry_key d = Inr k" by blast
    have "st k = Some d" using st assms(3) d by (rule build_state_entry)
    moreover have "st' k = Some d" using st' dis' d(1)[folded s] d(2) by (rule build_state_entry)
    ultimately show ?thesis by simp
  next
    case False
    then have n: "\<forall>d\<in>set ds. entry_key d \<noteq> Inr k" by blast
    have "st k = m k" using st n by (rule build_state_other)
    moreover have "st' k = m k" using st' n[folded s] by (rule build_state_other)
    ultimately show ?thesis by simp
  qed
  then have "st' = st" by (rule ext)
  with st st' show ?thesis by simp
qed

lemma find_snoc:
  "find P (xs @ [x]) = (case find P xs of None \<Rightarrow> (if P x then Some x else None) | Some y \<Rightarrow> Some y)"
  by (induction xs) auto

lemma build_state_last:
  "build_state es m = Inr st \<Longrightarrow>
   st k = (case find (\<lambda>d. entry_key d = Inr k) (rev es) of None \<Rightarrow> m k | Some d \<Rightarrow> Some d)"
proof (induction es arbitrary: m)
  case Nil
  then show ?case by simp
next
  case (Cons e es)
  then obtain k' where k': "entry_key e = Inr k'"
    by (cases "entry_key e") auto
  with Cons.prems have b: "build_state es (m(k' \<mapsto> e)) = Inr st" by simp
  have "st k = (case find (\<lambda>d. entry_key d = Inr k) (rev es) of
                  None \<Rightarrow> (m(k' \<mapsto> e)) k | Some d \<Rightarrow> Some d)"
    using b by (rule Cons.IH)
  then show ?case using k' by (auto simp: find_snoc split: option.splits)
qed

lemma entry_key_dict: "entry_key d = Inr k \<Longrightarrow> \<exists>kvs. d = PDict kvs \<and> kvs \<noteq> []"
  by (cases d) (auto simp: entry_key_def dict_lookup_def)

lemma from_dict_dict: "\<exists>s'. from_dict s (PDict kvs) = Inr s'"
  by (simp add: from_dict_def)

lemma apply_state_dicts:
  assumes "\<And>k d. st k = Some d \<Longrightarrow> \<exists>kvs. d = PDict kvs \<and> kvs \<noteq> []"
  shows "apply_state st ss =
           (None, map (\<lambda>s. case st (seat_key s) of
                               None \<Rightarrow> s
                             | Some d \<Rightarrow> (case from_dict s d of Inl e \<Rightarrow> s | Inr s' \<Rightarrow> s')) ss)"
proof (induction ss)
  case Nil
  then show ?case by simp
next
  case (Cons s ss)
  show ?case
  proof (cases "st (seat_key s)")
    case None
    then show ?thesis using Cons.IH by simp
  next
    case (Some d)
    then obtain kvs where d: "d = PDict kvs" "kvs \<noteq> []" using assms by blast
    obtain s' where s': "from_dict s (PDict kvs) = Inr s'" using from_dict_dict by blast
    show ?thesis using Some d s' Cons.IH by simp
  qed
qed

lemma load_state_keyed:
  assumes "\<forall>e\<in>set es. \<exists>k. entry_key e = Inr k"
    and "dict_lookup kvs ''seats'' = Some (PList es)"
  shows "load_state h (dk\<lparr>data_file := Content (PDict kvs)\<rparr>)
           = (Inr (), h\<lparr>seats := map (\<lambda>s.
                case find (\<lambda>d. entry_key d = Inr (seat_key s)) (rev es) of
                  None \<Rightarrow> s
                | Some d \<Rightarrow> (case from_dict s d of Inl e \<Rightarrow> s | Inr s' \<Rightarrow> s')) (seats h)\<rparr>)"
proof -
  obtain st where st: "build_state es Map.empty = Inr st"
    using build_state_total [OF assms(1)] by blast
  have lk: "st k = find (\<lambda>d. entry_key d = Inr k) (rev es)" for k
    using build_state_last [OF st, of k] by (simp split: option.splits)
  have "\<exists>kvs. d = PDict kvs \<and> kvs \<noteq> []" if "st k = Some d" for k d
  proof -
    from that have "find (\<lambda>d. entry_key d = Inr k) (rev es) = Some d" by (simp add: lk)
    then have "entry_key d = Inr k" by (auto simp: find_Some_iff)
    then show ?thesis by (rule entry_key_dict)
  qed
  then have "apply_state st (seats h) =
           (None, map (\<lambda>s. case st (seat_key s) of
                               None \<Rightarrow> s
                             | Some d \<Rightarrow> (case from_dict s d of Inl e \<Rightarrow> s | Inr s' \<Rightarrow> s')) (seats h))"
    by (rule apply_state_dicts)
  then show ?thesis by (simp add: load_state_def assms(2) st lk)
qed

text \<open>
  Claim C8, amended. Let every entry of the \<open>seats\<close> list be an object with hashable
  \<open>row\<close> and \<open>col\<close>. Then \<^verbatim>\<open>load_state\<close> returns normally, and each seat takes its
  \<open>booked\<close> flag from the last entry of the list whose key \<open>(row, col)\<close> equals the
  seat's; a seat with no such entry is left as it is. What an entry sets \<open>booked\<close> to
  depends on the entry alone. When moreover no two entries have the same key, every
  permutation of the list loads to the same outcome and the same hall. With several
  entries of one key the last one decides, so there the order can matter.
\<close>
theorem load_state_last_entry_decides:
  assumes "\<forall>e\<in>set es. \<exists>k. entry_key e = Inr k"
    and "dict_lookup kvs ''seats'' = Some (PList es)"
  shows "load_state h (dk\<lparr>data_file := Content (PDict kvs)\<rparr>)
           = (Inr (), h\<lparr>seats := map (\<lambda>s.
                case find (\<lambda>d. entry_key d = Inr (seat_key s)) (rev es) of
                  None \<Rightarrow> s
                | Some d \<Rightarrow> (case from_dict s d of Inl e \<Rightarrow> s | Inr s' \<Rightarrow> s')) (seats h)\<rparr>)
       \<and> (\<forall>e\<in>set es. \<exists>b. \<forall>s. from_dict s e = Inr (s\<lparr>booked := b\<rparr>))
       \<and> (\<forall>es' kvs'.
             mset es' = mset es \<and> distinct (map entry_key es)
             \<and> dict_lookup kvs' ''seats'' = Some (PList es')
             \<longrightarrow> load_state h (dk\<lparr>data_file := Content (PDict kvs')\<rparr>)
                  = load_state h (dk\<lparr>data_file := Content (PDict kvs)\<rparr>))"
proof (intro conjI ballI allI impI)
  show "load_state h (dk\<lparr>data_file := Content (PDict kvs)\<rparr>)
           = (Inr (), h\<lparr>seats := map (\<lambda>s.
                case find (\<lambda>d. entry_key d = Inr (seat_key s)) (rev es) of
                  None \<Rightarrow> s
                | Some d \<Rightarrow> (case from_dict s d of Inl e \<Rightarrow> s | Inr s' \<Rightarrow> s')) (seats h)\<rparr>)"
    using assms by (rule load_state_keyed)
next
  fix e
  assume "e \<in> set es"
  then obtain k where "entry_key e = Inr k" using assms(1) by blast
  then obtain kvs0 where "e = PDict kvs0" using entry_key_dict by blast
  then have "\<forall>s. from_dict s e = Inr (s\<lparr>booked :=
      truthy (case dict_lookup kvs0 ''booked'' of None \<Rightarrow> PBool False | Some v \<Rightarrow> v)\<rparr>)"
    by (simp add: from_dict_def)
  then show "\<exists>b. \<forall>s. from_dict s e = Inr (s\<lparr>booked := b\<rparr>)" by blast
next
  fix es' kvs'
  assume a: "mset es' = mset es \<and> distinct (map entry_key es)
             \<and> dict_lookup kvs' ''seats'' = Some (PList es')"
  then have "build_state es' Map.empty = build_state es Map.empty"
    using assms(1) build_state_perm by blast
  then show "load_state h (dk\<lparr>data_file := Content (PDict kvs')\<rparr>)
                  = load_state h (dk\<lparr>data_file := Content (PDict kvs)\<rparr>)"
    using a by (simp add: load_state_def assms(2))
qed

subsection \<open>Loading what was saved\<close>

lemma entry_key_to_dict: "entry_key (to_dict s) = Inr (seat_key s)"
  by (simp add: entry_key_def to_dict_def dict_lookup_def seat_key_def)

lemma from_dict_to_dict: "from_dict f (to_dict s) = Inr (f\<lparr>booked := booked s\<rparr>)"
  by (simp add: from_dict_def to_dict_def dict_lookup_def)

lemma truthy_to_dict: "truthy (to_dict s)"
  by (simp add: to_dict_def)

lemma seat_key_geometry: "geometry f = geometry s \<Longrightarrow> seat_key f = seat_key s"
  by (simp add: geometry_def seat_key_def)

lemma seat_key_eq_iff: "seat_key s = seat_key t \<longleftrightarrow> seat_id s = seat_id t"
  by (simp add: seat_key_def seat_id_def)

lemma seat_from_geometry: "geometry f = geometry s \<Longrightarrow> f\<lparr>booked := booked s\<rparr> = s"
  by (simp add: geometry_def)

lemma apply_state_saved:
  "map geometry fs = map geometry ss \<Longrightarrow> \<forall>s\<in>set ss. st (seat_key s) = Some (to_dict s) \<Longrightarrow>
   apply_state st fs = (None, ss)"
proof (induction fs arbitrary: ss)
  case Nil
  then show ?case by simp
next
  case (Cons f fs)
  then obtain s ss' where ss: "ss = s # ss'" by (cases ss) auto
  with Cons.prems have g: "geometry f = geometry s" and gs: "map geometry fs = map geometry ss'"
    by simp_all
  have "\<forall>s\<in>set ss'. st (seat_key s) = Some (to_dict s)" using Cons.prems(2) ss by simp
  with gs have ih: "apply_state st fs = (None, ss')" by (rule Cons.IH)
  have "st (seat_key f) = Some (to_dict s)"
    using Cons.prems(2) ss seat_key_geometry [OF g] by simp
  then show ?case
    using ih ss by (simp add: truthy_to_dict from_dict_to_dict seat_from_geometry [OF g])
qed

lemma distinct_entry_keys_saved:
  "distinct (map seat_id ss) \<Longrightarrow> distinct (map entry_key (map to_dict ss))"
  by (induction ss) (auto simp: entry_key_to_dict seat_key_eq_iff image_iff)

lemma load_saved:
  assumes "distinct (map seat_id ss)" and "map geometry fs = map geometry ss"
  shows "load_state (h\<lparr>seats := fs\<rparr>) (dk\<lparr>data_file := Content (snapshot ss)\<rparr>)
           = (Inr (), h\<lparr>seats := ss\<rparr>)"
proof -
  have "\<forall>d\<in>set (map to_dict ss). \<exists>k. entry_key d = Inr k"
    by (simp add: entry_key_to_dict)
  then obtain st where st: "build_state (map to_dict ss) Map.empty = Inr st"
    using build_state_total by blast
  have "\<forall>s\<in>set ss. st (seat_key s) = Some (to_dict s)"
  proof
    fix s assume "s \<in> set ss"
    then have "to_dict s \<in> set (map to_dict ss)" by simp
    with st distinct_entry_keys_saved [OF assms(1)]
    show "st (seat_key s) = Some (to_dict s)"
      using entry_key_to_dict by (rule build_state_entry)
  qed
  with assms(2) have "apply_state st fs = (None, ss)" by (rule apply_state_saved)
  then show ?thesis
    by (simp add: load_state_def snapshot_def dict_lookup_def st)
qed

lemma build_grid_distinct_ids: "distinct (map seat_id (seats (build_grid h)))"
  by (simp add: build_grid_ids distinct_product py_range_props)

lemma hall_split: "h = (seats_update (\<lambda>_. []) h)\<lparr>seats := seats h\<rparr>"
  by simp

text \<open>
  Claim C2. Let \<open>h\<close> be a hall in any state reached from its construction by load, save,
  toggle and reset. On a writable disk \<^verbatim>\<open>save_state\<close> returns, and constructing a hall
  with the same configuration on the disk it leaves (the constructor builds the grid and
  loads) returns normally with a hall equal to \<open>h\<close>: every seat has the \<open>booked\<close>
  value it had in \<open>h\<close>.
\<close>
theorem save_then_fresh_load_round_trip:
  assumes "writable dk"
    and "h = fst (run evs (snd (CinemaHall rws cls rad gx gy dk0), dk1))"
  shows "fst (save_state h dk) = Inr ()
       \<and> CinemaHall rws cls rad gx gy (snd (save_state h dk)) = (Inr (), h)"
proof -
  let ?cfg = "\<lparr>rows = rws, cols = cls, radius = rad, gap_x = gx, gap_y = gy, seats = []\<rparr>"
  have g: "map geometry (seats (build_grid ?cfg)) = map geometry (seats h)"
    unfolding assms(2) by (simp add: run_geometry CinemaHall_geometry)
  have c: "seats_update (\<lambda>_. []) h = ?cfg"
    unfolding assms(2) by (simp add: run_config CinemaHall_config)
  have "map seat_id (seats h) = map seat_id (seats (build_grid ?cfg))"
    using g [symmetric] by (rule map_seat_id_geometry)
  then have d: "distinct (map seat_id (seats h))" by (simp add: build_grid_distinct_ids)
  have b: "build_grid ?cfg = ?cfg\<lparr>seats := seats (build_grid ?cfg)\<rparr>"
    using build_grid_config [of ?cfg] hall_split [of "build_grid ?cfg"] by simp
  have "load_state (?cfg\<lparr>seats := seats (build_grid ?cfg)\<rparr>)
          (dk\<lparr>data_file := Content (snapshot (seats h))\<rparr>) = (Inr (), ?cfg\<lparr>seats := seats h\<rparr>)"
    using d g by (rule load_saved)
  moreover have "?cfg\<lparr>seats := seats h\<rparr> = h" using c hall_split [of h] by simp
  ultimately have "load_state (build_grid ?cfg) (dk\<lparr>data_file := Content (snapshot (seats h))\<rparr>)
      = (Inr (), h)" using b by simp
  then show ?thesis using assms(1) by (simp add: CinemaHall_def save_state_def)
qed

subsection \<open>Instances for loading\<close>

lemma build_grid_2x2_hall:
  "build_grid \<lparr>rows = 2, cols = 2, radius = 10, gap_x = 4, gap_y = 6, seats = []\<rparr>
     = \<lparr>rows = 2, cols = 2, radius = 10, gap_x = 4, gap_y = 6,
        seats = [Seat 0 0 (-12) (-38) 10, Seat 0 1 12 (-38) 10,
                 Seat 1 0 (-12) (-12) 10, Seat 1 1 12 (-12) 10]\<rparr>"
  using build_grid_2x2 build_grid_config [of "\<lparr>rows = 2, cols = 2, radius = 10, gap_x = 4, gap_y = 6, seats = []\<rparr>"]
    hall_split [of "build_grid \<lparr>rows = 2, cols = 2, radius = 10, gap_x = 4, gap_y = 6, seats = []\<rparr>"]
  by simp

lemma toggled_2x2:
  "map booked (seats (fst (run [ToggleAt 12 (-38)] (snd (CinemaHall 2 2 10 4 6 demo_disk), demo_disk))))
     = [False, True, False, False]"
  by (simp add: run_def CinemaHall_def build_grid_2x2_hall load_state_def demo_disk_def
      toggle_at_hall contains_code Seat_def)

theorem save_then_fresh_load_round_trip_witness:
  "writable demo_disk
   \<and> map booked (seats (fst (run [ToggleAt 12 (-38)]
         (snd (CinemaHall 2 2 10 4 6 demo_disk), demo_disk)))) = [False, True, False, False]
   \<and> CinemaHall 2 2 10 4 6
        (snd (save_state (fst (run [ToggleAt 12 (-38)]
           (snd (CinemaHall 2 2 10 4 6 demo_disk), demo_disk))) demo_disk))
      = (Inr (), fst (run [ToggleAt 12 (-38)] (snd (CinemaHall 2 2 10 4 6 demo_disk), demo_disk)))"
proof -
  have w: "writable demo_disk" by (simp add: demo_disk_def)
  from save_then_fresh_load_round_trip [OF w refl, of "[ToggleAt 12 (-38)]" 2 2 10 4 6 demo_disk demo_disk]
    w toggled_2x2
  show ?thesis by blast
qed

text \<open>
  The claim C8 as it is stated fails: two snapshots that are permutations of each other,
  with two entries for the seat \<open>(0, 0)\<close>, load to different \<open>booked\<close> values.
\<close>
theorem load_state_order_matters_with_duplicates:
  "mset [PDict [(''row'', PInt 0), (''col'', PInt 0), (''booked'', PBool False)],
         PDict [(''row'', PInt 0), (''col'', PInt 0), (''booked'', PBool True)]]
     = mset [PDict [(''row'', PInt 0), (''col'', PInt 0), (''booked'', PBool True)],
             PDict [(''row'', PInt 0), (''col'', PInt 0), (''booked'', PBool False)]]
   \<and> map booked (seats (snd (load_state overlap_hall (snapshot_disk (PDict [(''seats'', PList
        [PDict [(''row'', PInt 0), (''col'', PInt 0), (''booked'', PBool True)],
         PDict [(''row'', PInt 0), (''col'', PInt 0), (''booked'', PBool False)]])])))))
       = [False, False]
   \<and> map booked (seats (snd (load_state overlap_hall (snapshot_disk (PDict [(''seats'', PList
        [PDict [(''row'', PInt 0), (''col'', PInt 0), (''booked'', PBool False)],
         PDict [(''row'', PInt 0), (''col'', PInt 0), (''booked'', PBool True)]])])))))
       = [True, False]"
  by (simp add: load_state_def snapshot_disk_def overlap_hall_def dict_lookup_def entry_key_def
      seat_key_def from_dict_def Seat_def)

theorem load_state_last_entry_decides_witness:
  "load_state overlap_hall (snapshot_disk (PDict [(''seats'', PList
        [PDict [(''row'', PInt 0), (''col'', PInt 0), (''booked'', PBool True)],
         PDict [(''row'', PInt 0), (''col'', PInt 1), (''booked'', PBool True)],
         PDict [(''row'', PInt 0), (''col'', PInt 0), (''booked'', PBool False)]])]))
     = (Inr (), overlap_hall\<lparr>seats := [Seat 0 0 0 0 10, (Seat 0 1 5 0 10)\<lparr>booked := True\<rparr>]\<rparr>)
   \<and> load_state overlap_hall (snapshot_disk (PDict [(''seats'', PList
        [PDict [(''row'', PInt 0), (''col'', PInt 1), (''booked'', PBool True)],
         PDict [(''row'', PInt 0), (''col'', PInt 0), (''booked'', PBool False)]])]))
     = load_state overlap_hall (snapshot_disk (PDict [(''seats'', PList
        [PDict [(''row'', PInt 0), (''col'', PInt 0), (''booked'', PBool False)],
         PDict [(''row'', PInt 0), (''col'', PInt 1), (''booked'', PBool True)]])]))"
proof -
  let ?t = "PDict [(''row'', PInt 0), (''col'', PInt 0), (''booked'', PBool True)]"
  let ?a = "PDict [(''row'', PInt 0), (''col'', PInt 0), (''booked'', PBool False)]"
  let ?b = "PDict [(''row'', PInt 0), (''col'', PInt 1), (''booked'', PBool True)]"
  have kt: "entry_key ?t = Inr (KNum 0, KNum 0)" by (simp add: entry_key_def dict_lookup_def)
  have ka: "entry_key ?a = Inr (KNum 0, KNum 0)" by (simp add: entry_key_def dict_lookup_def)
  have kb: "entry_key ?b = Inr (KNum 0, KNum 1)" by (simp add: entry_key_def dict_lookup_def)
  have k3: "\<forall>e\<in>set [?t, ?b, ?a]. \<exists>k. entry_key e = Inr k" using kt ka kb by simp
  have l3: "dict_lookup [(''seats'', PList [?t, ?b, ?a])] ''seats'' = Some (PList [?t, ?b, ?a])"
    by (simp add: dict_lookup_def)
  have "load_state overlap_hall
          (snapshot_disk PNone\<lparr>data_file := Content (PDict [(''seats'', PList [?t, ?b, ?a])])\<rparr>)
        = (Inr (), overlap_hall\<lparr>seats := map (\<lambda>s.
                case find (\<lambda>d. entry_key d = Inr (seat_key s)) (rev [?t, ?b, ?a]) of
                  None \<Rightarrow> s
                | Some d \<Rightarrow> (case from_dict s d of Inl e \<Rightarrow> s | Inr s' \<Rightarrow> s'))
              (seats overlap_hall)\<rparr>)"
    using load_state_last_entry_decides [OF k3 l3, of overlap_hall "snapshot_disk PNone"]
    by blast
  then have first: "load_state overlap_hall (snapshot_disk (PDict [(''seats'', PList [?t, ?b, ?a])]))
     = (Inr (), overlap_hall\<lparr>seats := [Seat 0 0 0 0 10, (Seat 0 1 5 0 10)\<lparr>booked := True\<rparr>]\<rparr>)"
    by (simp add: snapshot_disk_def overlap_hall_def kt ka kb seat_key_def Seat_def from_dict_def
        dict_lookup_def)
  have k2: "\<forall>e\<in>set [?a, ?b]. \<exists>k. entry_key e = Inr k" using ka kb by simp
  have l2: "dict_lookup [(''seats'', PList [?a, ?b])] ''seats'' = Some (PList [?a, ?b])"
    by (simp add: dict_lookup_def)
  have c: "mset [?b, ?a] = mset [?a, ?b] \<and> distinct (map entry_key [?a, ?b])
      \<and> dict_lookup [(''seats'', PList [?b, ?a])] ''seats'' = Some (PList [?b, ?a])"
    using ka kb by (simp add: dict_lookup_def)
  have "load_state overlap_hall
          (snapshot_disk PNone\<lparr>data_file := Content (PDict [(''seats'', PList [?b, ?a])])\<rparr>)
        = load_state overlap_hall
          (snapshot_disk PNone\<lparr>data_file := Content (PDict [(''seats'', PList [?a, ?b])])\<rparr>)"
    using load_state_last_entry_decides [OF k2 l2, of overlap_hall "snapshot_disk PNone"] c
    by blast
  then have second: "load_state overlap_hall (snapshot_disk (PDict [(''seats'', PList [?b, ?a])]))
         = load_state overlap_hall (snapshot_disk (PDict [(''seats'', PList [?a, ?b])]))"
    by (simp add: snapshot_disk_def)
  from first second show ?thesis by blast
qed

subsection \<open>\<^verbatim>\<open>from_dict\<close> and the truth value of \<open>booked\<close>\<close>

text \<open>
  The claim C9 as it is stated fails: the string \<^verbatim>\<open>"false"\<close> and the list \<^verbatim>\<open>[false]\<close>
  are not booleans, and \<^verbatim>\<open>from_dict\<close> sets \<open>booked\<close> to \<open>True\<close> for them.
\<close>
theorem from_dict_non_boolean_value_books_seat:
  "from_dict (Seat 0 0 0 0 10) (PDict [(''booked'', PStr ''false'')])
     = Inr ((Seat 0 0 0 0 10)\<lparr>booked := True\<rparr>)
   \<and> from_dict (Seat 0 0 0 0 10) (PDict [(''booked'', PList [PBool False])])
     = Inr ((Seat 0 0 0 0 10)\<lparr>booked := True\<rparr>)"
  by (simp add: from_dict_def dict_lookup_def)

lemma truthy_iff:
  "truthy v \<longleftrightarrow>
     v \<notin> {PNone, PBool False, PInt 0, PFloat (Finite 0), PStr [], PList [], PDict []}"
  by (cases v) auto

text \<open>
  Claim C9, amended. \<^verbatim>\<open>from_dict\<close> sets \<open>booked\<close> to Python's truth value of the
  \<open>booked\<close> field, and to \<open>False\<close> when the field is absent, and changes nothing else.
  The truth value is false exactly for \<^verbatim>\<open>null\<close>, \<^verbatim>\<open>false\<close>, \<open>0\<close>, \<open>0.0\<close>, the empty
  string, the empty list and the empty object; a boolean is its own truth value.
\<close>
theorem from_dict_sets_truth_value:
  "from_dict s (PDict kvs)
     = Inr (s\<lparr>booked := (case dict_lookup kvs ''booked'' of None \<Rightarrow> False | Some v \<Rightarrow> truthy v)\<rparr>)
   \<and> (truthy v \<longleftrightarrow>
        v \<notin> {PNone, PBool False, PInt 0, PFloat (Finite 0), PStr [], PList [], PDict []})
   \<and> truthy (PBool b) = b"
  by (simp add: from_dict_def truthy_iff split: option.splits)

theorem from_dict_sets_truth_value_witness:
  "from_dict ((Seat 0 0 0 0 10)\<lparr>booked := True\<rparr>) (PDict [(''row'', PInt 0), (''col'', PInt 0)])
     = Inr (Seat 0 0 0 0 10)
   \<and> from_dict (Seat 0 0 0 0 10) (PDict [(''booked'', PBool True)])
     = Inr ((Seat 0 0 0 0 10)\<lparr>booked := True\<rparr>)
   \<and> from_dict ((Seat 0 0 0 0 10)\<lparr>booked := True\<rparr>) (PDict [(''booked'', PNone)])
     = Inr (Seat 0 0 0 0 10)"
  using from_dict_sets_truth_value [of "(Seat 0 0 0 0 10)\<lparr>booked := True\<rparr>" "[(''row'', PInt 0), (''col'', PInt 0)]" PNone True]
    from_dict_sets_truth_value [of "Seat 0 0 0 0 10" "[(''booked'', PBool True)]" PNone True]
    from_dict_sets_truth_value [of "(Seat 0 0 0 0 10)\<lparr>booked := True\<rparr>" "[(''booked'', PNone)]" PNone True]
  by (simp add: dict_lookup_def Seat_def)

subsection \<open>Loading a missing, unreadable or misshapen file\<close>

lemma load_state_missing_or_unreadable:
  "data_file dk = Missing \<or> data_file dk = Unreadable \<Longrightarrow> load_state h dk = (Inr (), h)"
  by (auto simp: load_state_def)

text \<open>
  Claim C1. A file that is missing or cannot be read or parsed makes \<^verbatim>\<open>load_state\<close>
  return with the hall unchanged (\<open>load_state_missing_or_unreadable\<close>). A file that
  parses to a document of the wrong shape does not: the lines after the \<^verbatim>\<open>try\<close> block
  raise. A top level that is not an object raises AttributeError, an entry without
  \<open>row\<close> raises KeyError, an entry that is not an object raises TypeError, and so does
  a \<open>seats\<close> member that cannot be iterated. The seats stay as they were.
\<close>
theorem load_state_raises_on_wrong_shape:
  "load_state overlap_hall (snapshot_disk (PList [])) = (Inl AttributeError, overlap_hall)
   \<and> load_state overlap_hall (snapshot_disk (PDict [(''seats'', PList
        [PDict [(''booked'', PBool True)]])])) = (Inl KeyError, overlap_hall)
   \<and> load_state overlap_hall (snapshot_disk (PDict [(''seats'', PList [PInt 3])]))
        = (Inl TypeError, overlap_hall)
   \<and> load_state overlap_hall (snapshot_disk (PDict [(''seats'', PNone)]))
        = (Inl TypeError, overlap_hall)"
  by (simp add: load_state_def snapshot_disk_def dict_lookup_def entry_key_def)

theorem load_state_raises_on_wrong_shape_witness:
  "load_state overlap_hall (snapshot_disk (PList [])) = (Inl AttributeError, overlap_hall)"
  by (rule load_state_raises_on_wrong_shape [THEN conjunct1])

end
